theory Spec2Isabelle
  imports Complex_Main
begin

section \<open>Motion typography engine: animation compilation and frame pipeline\<close>

text \<open>
  A shallow embedding of the engine's validator (\<^verbatim>\<open>engine/dsl/validator.py\<close>), easing
  registry (\<^verbatim>\<open>engine/dsl/easing.py\<close>), keyframe interpolator
  (\<^verbatim>\<open>engine/dsl/keyframes.py\<close>), data classes (\<^verbatim>\<open>engine/core/types.py\<close>) and the
  compile and render loops of \<^verbatim>\<open>engine/pipeline.py\<close>.

  Conventions of the embedding:
  \<^item> Python floats are modelled as exact reals (\<^typ>\<open>real\<close>): rounding, infinities and NaN
    are outside the model. Python ints are \<^typ>\<open>int\<close>.
  \<^item> Python strings are \<^typ>\<open>string\<close>; \<^verbatim>\<open>str.lower\<close> is modelled on ASCII letters.
  \<^item> Every \<^verbatim>\<open>raise\<close> is a value \<open>Inl e\<close> of a sum type; a function that mutates its
    argument returns the mutated object.
\<close>

subsection \<open>Errors\<close>

text \<open>
  The exception classes that the modelled code raises, with the constant part of the
  message of each raise site.
\<close>

datatype error =
    ValidationError string
  | ValueError string
  | IndexError
  | EncodingError string
  | ExternalError string

subsection \<open>Property values\<close>

text \<open>
  Keyframe properties and frame elements are \<^verbatim>\<open>Dict[str, Any]\<close>. The values that JSON and
  the engine put there: \<^verbatim>\<open>None\<close>, numbers (\<^verbatim>\<open>int\<close>, \<^verbatim>\<open>float\<close> and \<^verbatim>\<open>bool\<close>, which
  is an \<^verbatim>\<open>int\<close> for \<^verbatim>\<open>isinstance\<close>), strings, lists, tuples and dictionaries.
\<close>

datatype pval =
    PNone
  | PNum real
  | PStr string
  | PList "pval list"
  | PTuple "pval list"
  | PDict "(string \<times> pval) list"

type_synonym props = "string \<rightharpoonup> pval"

text \<open>\<^verbatim>\<open>dict.get(key)\<close>: \<^verbatim>\<open>None\<close> for a missing key.\<close>

definition dict_get :: "props \<Rightarrow> string \<Rightarrow> pval" where
  "dict_get p key = (case p key of None \<Rightarrow> PNone | Some v \<Rightarrow> v)"

record keyframe =
  kf_time :: real
  kf_properties :: props

subsection \<open>Easing library\<close>

text \<open>
  Each static method of \<^verbatim>\<open>EasingFunction\<close> is one constructor; two lookups return the
  same Python function object exactly when they return the same constructor.
\<close>

datatype easing =
    Linear
  | EaseInQuad | EaseOutQuad | EaseInOutQuad
  | EaseInCubic | EaseOutCubic | EaseInOutCubic
  | EaseInQuartic | EaseOutQuartic | EaseInOutQuartic
  | EaseInSine | EaseOutSine | EaseInOutSine
  | EaseInExponential | EaseOutExponential | EaseInOutExponential
  | EaseInElastic | EaseOutElastic | EaseInOutElastic
  | EaseInBounce | EaseOutBounce | EaseInOutBounce
  | EaseInBack | EaseOutBack | EaseInOutBack

definition ease_out_bounce :: "real \<Rightarrow> real" where
  "ease_out_bounce t =
     (if t < 1 / 2.75 then 7.5625 * t * t
      else if t < 2 / 2.75 then
        (let t = t - 1.5 / 2.75 in 7.5625 * t * t + 0.75)
      else if t < 2.5 / 2.75 then
        (let t = t - 2.25 / 2.75 in 7.5625 * t * t + 0.9375)
      else
        (let t = t - 2.625 / 2.75 in 7.5625 * t * t + 0.984375))"

definition ease_in_bounce :: "real \<Rightarrow> real" where
  "ease_in_bounce t = 1 - ease_out_bounce (1 - t)"

definition ease_in_back :: "real \<Rightarrow> real" where
  "ease_in_back t =
     (let c1 = 1.70158; c3 = c1 + 1 in c3 * t * t * t - c1 * t * t)"

definition ease_out_back :: "real \<Rightarrow> real" where
  "ease_out_back t =
     (let c1 = 1.70158; c3 = c1 + 1 in 1 + c3 * (t - 1) ^ 3 + c1 * (t - 1) ^ 2)"

definition ease_in_out_back :: "real \<Rightarrow> real" where
  "ease_in_out_back t =
     (let c1 = 1.70158; c2 = c1 * 1.525 in
      if t < 0.5 then (t * t * ((c2 + 1) * 2 * t - c2)) / 2
      else ((t * 2 - 2) * (t * 2 - 2) * ((c2 + 1) * (t * 2 - 2) + c2) + 2) / 2)"

text \<open>Applying a curve; \<^verbatim>\<open>math.pow(2, x)\<close> is \<open>2 powr x\<close>.\<close>

fun ease :: "easing \<Rightarrow> real \<Rightarrow> real" where
  "ease Linear t = t"
| "ease EaseInQuad t = t * t"
| "ease EaseOutQuad t = t * (2 - t)"
| "ease EaseInOutQuad t = (if t < 0.5 then 2 * t * t else - 1 + (4 - 2 * t) * t)"
| "ease EaseInCubic t = t * t * t"
| "ease EaseOutCubic t = (t - 1) * (t - 1) * (t - 1) + 1"
| "ease EaseInOutCubic t =
     (if t < 0.5 then 4 * t * t * t else (t - 1) * (2 * t - 2) * (2 * t - 2) + 1)"
| "ease EaseInQuartic t = t * t * t * t"
| "ease EaseOutQuartic t = 1 - (t - 1) * (t - 1) * (t - 1) * (t - 1)"
| "ease EaseInOutQuartic t =
     (if t < 0.5 then 8 * t * t * t * t
      else 1 - 8 * (t - 1) * (t - 1) * (t - 1) * (t - 1))"
| "ease EaseInSine t = 1 - cos (t * pi / 2)"
| "ease EaseOutSine t = sin (t * pi / 2)"
| "ease EaseInOutSine t = - (cos (pi * t) - 1) / 2"
| "ease EaseInExponential t = (if t = 0 then 0 else 2 powr (10 * (t - 1)))"
| "ease EaseOutExponential t = (if t = 1 then 1 else 1 - 2 powr (- 10 * t))"
| "ease EaseInOutExponential t =
     (if t = 0 then 0 else if t = 1 then 1
      else if t < 0.5 then 2 powr (20 * t - 10) / 2
      else (2 - 2 powr (- 20 * t + 10)) / 2)"
| "ease EaseInElastic t =
     (if t = 0 then 0 else if t = 1 then 1
      else - (2 powr (10 * (t - 1))) * sin ((t - 1.1) * 5 * pi))"
| "ease EaseOutElastic t =
     (if t = 0 then 0 else if t = 1 then 1
      else 2 powr (- 10 * t) * sin ((t - 0.1) * 5 * pi) + 1)"
| "ease EaseInOutElastic t =
     (if t = 0 then 0 else if t = 1 then 1
      else if t < 0.5 then
        - (2 powr (20 * t - 10) * sin ((20 * t - 11.125) * (2 * pi) / 4.5)) / 2
      else 2 powr (- 20 * t + 10) * sin ((20 * t - 11.125) * (2 * pi) / 4.5) / 2 + 1)"
| "ease EaseInBounce t = ease_in_bounce t"
| "ease EaseOutBounce t = ease_out_bounce t"
| "ease EaseInOutBounce t =
     (if t < 0.5 then ease_in_bounce (t * 2) / 2
      else ease_out_bounce (t * 2 - 1) / 2 + 0.5)"
| "ease EaseInBack t = ease_in_back t"
| "ease EaseOutBack t = ease_out_back t"
| "ease EaseInOutBack t = ease_in_out_back t"

text \<open>The registry \<^verbatim>\<open>_EASING_MAP\<close>, in insertion order.\<close>

definition EASING_MAP :: "(string \<times> easing) list" where
  "EASING_MAP =
    [(''linear'', Linear),
     (''easeInQuad'', EaseInQuad),
     (''easeOutQuad'', EaseOutQuad),
     (''easeInOutQuad'', EaseInOutQuad),
     (''easeInCubic'', EaseInCubic),
     (''easeOutCubic'', EaseOutCubic),
     (''easeInOutCubic'', EaseInOutCubic),
     (''easeInQuartic'', EaseInQuartic),
     (''easeOutQuartic'', EaseOutQuartic),
     (''easeInOutQuartic'', EaseInOutQuartic),
     (''easeInSine'', EaseInSine),
     (''easeOutSine'', EaseOutSine),
     (''easeInOutSine'', EaseInOutSine),
     (''easeInExponential'', EaseInExponential),
     (''easeOutExponential'', EaseOutExponential),
     (''easeInOutExponential'', EaseInOutExponential),
     (''easeInElastic'', EaseInElastic),
     (''easeOutElastic'', EaseOutElastic),
     (''easeInOutElastic'', EaseInOutElastic),
     (''easeInBounce'', EaseInBounce),
     (''easeOutBounce'', EaseOutBounce),
     (''easeInOutBounce'', EaseInOutBounce),
     (''easeInBack'', EaseInBack),
     (''easeOutBack'', EaseOutBack),
     (''easeInOutBack'', EaseInOutBack),
     (''easeIn'', EaseInCubic),
     (''easeOut'', EaseOutCubic),
     (''easeInOut'', EaseInOutCubic)]"

text \<open>\<^verbatim>\<open>str.lower\<close> on ASCII: the letters A to Z move to a to z.\<close>

definition lower_char :: "char \<Rightarrow> char" where
  "lower_char c =
     (let n = (of_char c :: nat) in if 65 \<le> n \<and> n \<le> 90 then char_of (n + 32) else c)"

definition lower :: "string \<Rightarrow> string" where
  "lower s = map lower_char s"

text \<open>The case-insensitive scan over \<^verbatim>\<open>_EASING_MAP.items()\<close>.\<close>

fun scan_lower :: "(string \<times> easing) list \<Rightarrow> string \<Rightarrow> easing" where
  "scan_lower [] name_lower = Linear"
| "scan_lower ((key, func) # rest) name_lower =
     (if lower key = name_lower then func else scan_lower rest name_lower)"

definition get_easing_function :: "string \<Rightarrow> easing" where
  "get_easing_function name =
     (let name_lower = lower name in
      case map_of EASING_MAP name of
        Some func \<Rightarrow> func
      | None \<Rightarrow> scan_lower EASING_MAP name_lower)"

subsection \<open>Keyframe interpolator\<close>

text \<open>
  \<^verbatim>\<open>_interpolate_value\<close>: the four tests of the source in their order (both numbers; both
  sequences, of equal length; either a string; otherwise the second value). Two sequences
  of different lengths fall through to the later tests.
\<close>

fun interpolate_value :: "pval \<Rightarrow> pval \<Rightarrow> real \<Rightarrow> pval"
  and interpolate_zip :: "pval list \<Rightarrow> pval list \<Rightarrow> real \<Rightarrow> pval list" where
  "interpolate_value (PNum val1) (PNum val2) t = PNum (val1 + (val2 - val1) * t)"
| "interpolate_value (PList val1) (PList val2) t =
     (if length val1 = length val2 then PList (interpolate_zip val1 val2 t) else PList val2)"
| "interpolate_value (PList val1) (PTuple val2) t =
     (if length val1 = length val2 then PList (interpolate_zip val1 val2 t) else PTuple val2)"
| "interpolate_value (PTuple val1) (PList val2) t =
     (if length val1 = length val2 then PTuple (interpolate_zip val1 val2 t) else PList val2)"
| "interpolate_value (PTuple val1) (PTuple val2) t =
     (if length val1 = length val2 then PTuple (interpolate_zip val1 val2 t) else PTuple val2)"
| "interpolate_value (PStr val1) val2 t = (if t > 0.5 then val2 else PStr val1)"
| "interpolate_value val1 (PStr val2) t = (if t > 0.5 then PStr val2 else val1)"
| "interpolate_value val1 val2 t = val2"
| "interpolate_zip (v1 # val1) (v2 # val2) t =
     interpolate_value v1 v2 t # interpolate_zip val1 val2 t"
| "interpolate_zip _ _ t = []"

text \<open>
  \<^verbatim>\<open>_interpolate_properties\<close>: the result has the union of both key sets; a side whose
  \<^verbatim>\<open>get\<close> is \<^verbatim>\<open>None\<close> (key missing, or present with value \<^verbatim>\<open>None\<close>) passes the other
  side through.
\<close>

definition interpolate_properties :: "props \<Rightarrow> props \<Rightarrow> real \<Rightarrow> props" where
  "interpolate_properties props1 props2 t =
     (\<lambda>key. if props1 key = None \<and> props2 key = None then None
            else
              (let val1 = dict_get props1 key; val2 = dict_get props2 key in
               if val1 = PNone then Some val2
               else if val2 = PNone then Some val1
               else Some (interpolate_value val1 val2 t)))"

record interpolator =
  ip_keyframes :: "keyframe list"
  ip_easing_func :: easing

text \<open>\<^verbatim>\<open>KeyframeInterpolator.__init__\<close> with \<^verbatim>\<open>_validate_keyframes\<close>.\<close>

definition new_interpolator :: "keyframe list \<Rightarrow> string \<Rightarrow> error + interpolator" where
  "new_interpolator keyframes easing_name =
     (let kfs = sort_key kf_time keyframes;
          easing_func = get_easing_function easing_name in
      if kfs = [] then Inl (ValueError ''At least one keyframe is required'')
      else if kf_time (hd kfs) \<noteq> 0 then Inl (ValueError ''First keyframe must be at time 0.0'')
      else if kf_time (last kfs) \<noteq> 1 then Inl (ValueError ''Last keyframe must be at time 1.0'')
      else Inr \<lparr>ip_keyframes = kfs, ip_easing_func = easing_func\<rparr>)"

text \<open>
  The bracket scan of \<^verbatim>\<open>interpolate\<close>: the loop over \<open>i < len - 1\<close> with
  \<open>kf1 = keyframes[i]\<close> and \<open>kf2 = keyframes[i + 1]\<close>, then the fall-through
  \<^verbatim>\<open>keyframes[-1].properties.copy()\<close>, which raises \<^verbatim>\<open>IndexError\<close> on an empty list.
\<close>

fun find_bracket :: "keyframe list \<Rightarrow> real \<Rightarrow> error + props" where
  "find_bracket [] eased_t = Inl IndexError"
| "find_bracket [kf] eased_t = Inr (kf_properties kf)"
| "find_bracket (kf1 # kf2 # rest) eased_t =
     (if kf_time kf1 \<le> eased_t \<and> eased_t \<le> kf_time kf2 then
        (let local_t = (if kf_time kf2 \<noteq> kf_time kf1
                        then (eased_t - kf_time kf1) / (kf_time kf2 - kf_time kf1) else 0)
         in Inr (interpolate_properties (kf_properties kf1) (kf_properties kf2) local_t))
      else find_bracket (kf2 # rest) eased_t)"

definition interpolate :: "interpolator \<Rightarrow> real \<Rightarrow> error + props" where
  "interpolate ip t0 =
     (let t = max 0 (min 1 t0);
          eased_t = ease (ip_easing_func ip) t
      in find_bracket (ip_keyframes ip) eased_t)"

subsection \<open>Transcript data\<close>

record word =
  w_text :: string
  w_start :: real
  w_end :: real
  w_id :: "int option"

record segment =
  s_text :: string
  s_start :: real
  s_end :: real
  s_words :: "word list"
  s_id :: "int option"
  s_speaker_id :: "string option"

record transcript =
  t_segments :: "segment list"
  t_duration :: real
  t_language :: "string option"
  t_text :: "string option"

subsection \<open>Transcript validator\<close>

text \<open>The first fix-up of the loop body: a negative segment start becomes 0.\<close>

definition clamp_start :: "segment \<Rightarrow> segment" where
  "clamp_start seg = (if s_start seg < 0 then seg\<lparr>s_start := 0\<rparr> else seg)"

text \<open>
  \<^verbatim>\<open>min(w.start for w in segment.words)\<close> and \<^verbatim>\<open>max(w.end for w in segment.words)\<close>; the
  caller has checked that the list is not empty (on an empty list Python raises).
\<close>

fun min_start :: "word list \<Rightarrow> real" where
  "min_start [] = 0"
| "min_start (w # ws) = fold (\<lambda>v m. min m (w_start v)) ws (w_start w)"

fun max_end :: "word list \<Rightarrow> real" where
  "max_end [] = 0"
| "max_end (w # ws) = fold (\<lambda>v m. max m (w_end v)) ws (w_end w)"

text \<open>The repair of a segment whose range is empty or inverted, from its words.\<close>

definition fix_range :: "segment \<Rightarrow> segment" where
  "fix_range seg =
     (if s_end seg \<le> s_start seg then
        (let seg1 = seg\<lparr>s_start := min_start (s_words seg)\<rparr>;
             seg2 = seg1\<lparr>s_end := max_end (s_words seg1)\<rparr>
         in if s_end seg2 \<le> s_start seg2 then seg2\<lparr>s_end := s_start seg2 + 0.1\<rparr> else seg2)
      else seg)"

text \<open>The repair of one word, given the segment's current end.\<close>

definition fix_word :: "word \<Rightarrow> real \<Rightarrow> word" where
  "fix_word w seg_end =
     (if w_end w < w_start w then w\<lparr>w_end := w_start w + 0.01\<rparr>
      else if w_end w = w_start w then w\<lparr>w_end := min (w_start w + 0.01) seg_end\<rparr>
      else w)"

text \<open>
  The loop over the words of a segment: each word is repaired, then the segment's bounds
  are moved out to include it. The state is the segment's current start and end; the
  result is the repaired words with the final bounds.
\<close>

fun fix_words :: "word list \<Rightarrow> real \<Rightarrow> real \<Rightarrow> word list \<times> real \<times> real" where
  "fix_words [] seg_start seg_end = ([], seg_start, seg_end)"
| "fix_words (w # ws) seg_start seg_end =
     (let w' = fix_word w seg_end;
          seg_start' = (if w_start w' < seg_start then w_start w' else seg_start);
          seg_end' = (if w_end w' > seg_end then w_end w' else seg_end);
          (ws', s, e) = fix_words ws seg_start' seg_end'
      in (w' # ws', s, e))"

text \<open>The loop body for a segment that has words.\<close>

definition validate_segment :: "segment \<Rightarrow> segment" where
  "validate_segment seg =
     (let seg1 = fix_range (clamp_start seg);
          (ws, s, e) = fix_words (s_words seg1) (s_start seg1) (s_end seg1)
      in seg1\<lparr>s_start := s, s_end := e, s_words := ws\<rparr>)"

text \<open>The loop over the segments: a segment without words is skipped.\<close>

fun valid_segments :: "segment list \<Rightarrow> segment list" where
  "valid_segments [] = []"
| "valid_segments (seg # segs) =
     (if s_words seg = [] then valid_segments segs
      else validate_segment seg # valid_segments segs)"

text \<open>
  \<^verbatim>\<open>validate_transcript\<close> mutates the transcript and returns \<^verbatim>\<open>True\<close>; the model returns
  the mutated transcript.
\<close>

definition validate_transcript :: "transcript \<Rightarrow> error + transcript" where
  "validate_transcript tr =
     (if t_segments tr = [] then
        Inl (ValidationError ''Transcript must have at least one segment'')
      else
        (let tr' = tr\<lparr>t_segments := valid_segments (t_segments tr)\<rparr> in
         if t_segments tr' = [] then
           Inl (ValidationError ''No valid segments found in transcript'')
         else Inr tr'))"

subsection \<open>Style data\<close>

text \<open>
  \<^verbatim>\<open>Animation.keyframes\<close> is a dictionary from percent strings to property dictionaries;
  \<^verbatim>\<open>get_keyframes\<close> walks it in insertion order, so it is an association list here.
\<close>

record animation =
  a_selector :: string
  a_keyframes :: "(string \<times> props) list"
  a_duration :: real
  a_easing :: string
  a_delay :: real
  a_stagger :: "real option"

record effect_config =
  e_blur :: "(string \<times> pval) list option"
  e_glow :: "(string \<times> pval) list option"
  e_shadow :: "(string \<times> pval) list option"
  e_color_grade :: "(string \<times> pval) list option"

text \<open>
  The fields of \<^verbatim>\<open>StyleConfig\<close> that the validator, the compiler and the render loop read.
  \<^verbatim>\<open>resolution\<close> is a tuple whose length the validator checks, so it is a list here.
\<close>

record style_config =
  font_family :: string
  font_size :: int
  resolution :: "int list"
  fps :: int
  background_color :: "int \<times> int \<times> int \<times> int"
  animations :: "animation list"
  effects :: "effect_config option"
  color :: "string option"
  font_weight :: pval

subsection \<open>Style validator\<close>

fun validate_animations :: "animation list \<Rightarrow> error + bool" where
  "validate_animations [] = Inr True"
| "validate_animations (anim # rest) =
     (if a_duration anim \<le> 0 then
        Inl (ValidationError (''Animation duration must be positive: '' @ a_selector anim))
      else if a_keyframes anim = [] then
        Inl (ValidationError (''Animation must have keyframes: '' @ a_selector anim))
      else validate_animations rest)"

definition validate_styles :: "style_config \<Rightarrow> error + bool" where
  "validate_styles styles =
     (if fps styles \<le> 0 then Inl (ValidationError ''FPS must be positive'')
      else if font_size styles \<le> 0 then Inl (ValidationError ''Font size must be positive'')
      else if length (resolution styles) \<noteq> 2 \<or> (\<exists>r \<in> set (resolution styles). r \<le> 0) then
        Inl (ValidationError ''Resolution must be a tuple of two positive integers'')
      else validate_animations (animations styles))"

subsection \<open>Keyframes of an animation\<close>

text \<open>\<^verbatim>\<open>time_str.rstrip("%")\<close>: all trailing percent signs are removed.\<close>

definition rstrip_percent :: "string \<Rightarrow> string" where
  "rstrip_percent s = rev (dropWhile (\<lambda>c. c = CHR ''%'') (rev s))"

text \<open>
  \<^verbatim>\<open>Keyframe(time, properties)\<close> with its \<^verbatim>\<open>__post_init__\<close> check.
\<close>

definition new_keyframe :: "real \<Rightarrow> props \<Rightarrow> error + keyframe" where
  "new_keyframe time properties =
     (if \<not> (0 \<le> time \<and> time \<le> 1) then
        Inl (ValueError ''Keyframe time must be between 0.0 and 1.0'')
      else Inr \<lparr>kf_time = time, kf_properties = properties\<rparr>)"

text \<open>
  \<^verbatim>\<open>Animation.get_keyframes\<close>. The builtin \<^verbatim>\<open>float\<close> is the parameter \<open>pyfloat\<close>: the
  number a string denotes, \<open>None\<close> where \<^verbatim>\<open>float\<close> raises \<^verbatim>\<open>ValueError\<close> (or yields
  an infinity or NaN, which the range check of \<^verbatim>\<open>Keyframe\<close> rejects with the same
  exception class).
\<close>

fun collect_keyframes ::
  "(string \<Rightarrow> real option) \<Rightarrow> (string \<times> props) list \<Rightarrow> error + keyframe list" where
  "collect_keyframes pyfloat [] = Inr []"
| "collect_keyframes pyfloat ((time_str, props) # rest) =
     (case pyfloat (rstrip_percent time_str) of
        None \<Rightarrow> Inl (ValueError ''could not convert string to float'')
      | Some x \<Rightarrow>
          (case new_keyframe (x / 100) props of
             Inl e \<Rightarrow> Inl e
           | Inr kf \<Rightarrow>
               (case collect_keyframes pyfloat rest of
                  Inl e \<Rightarrow> Inl e
                | Inr kfs \<Rightarrow> Inr (kf # kfs))))"

definition get_keyframes ::
  "(string \<Rightarrow> real option) \<Rightarrow> animation \<Rightarrow> error + keyframe list" where
  "get_keyframes pyfloat anim =
     (case collect_keyframes pyfloat (a_keyframes anim) of
        Inl e \<Rightarrow> Inl e
      | Inr result \<Rightarrow> Inr (sort_key kf_time result))"

text \<open>
  A reading of \<^verbatim>\<open>float\<close> on unsigned decimal digit strings (\<^verbatim>\<open>"0"\<close>, \<^verbatim>\<open>"50"\<close>,
  \<^verbatim>\<open>"100"\<close>), used to run the model on concrete style data.
\<close>

definition digit_val :: "char \<Rightarrow> nat option" where
  "digit_val c =
     (let n = (of_char c :: nat) in if 48 \<le> n \<and> n \<le> 57 then Some (n - 48) else None)"

fun digits_val :: "string \<Rightarrow> nat \<Rightarrow> nat option" where
  "digits_val [] acc = Some acc"
| "digits_val (c # cs) acc =
     (case digit_val c of None \<Rightarrow> None | Some d \<Rightarrow> digits_val cs (10 * acc + d))"

definition decimal_float :: "string \<Rightarrow> real option" where
  "decimal_float s =
     (if s = [] then None else map_option real (digits_val s 0))"

subsection \<open>Timeline compiler\<close>

record frame =
  f_timestamp :: real
  f_elements :: "props list"

record timeline =
  tl_frames :: "frame list"
  tl_duration :: real
  tl_fps :: int
  tl_resolution :: "int \<times> int"
  tl_styles :: "style_config option"

text \<open>The fields of \<^verbatim>\<open>MotionTypographyEngine\<close> that \<^verbatim>\<open>compile\<close> reads and writes.\<close>

record engine =
  eng_resolution :: "int \<times> int"
  eng_fps :: int

text \<open>
  The progress of an animation for a word at a frame time, as \<^verbatim>\<open>_create_element\<close>
  computes it: \<^verbatim>\<open>min(1.0, max(0.0, anim_elapsed / anim.duration))\<close>, or 1 when the
  duration is not positive.
\<close>

definition anim_progress :: "animation \<Rightarrow> real \<Rightarrow> real \<Rightarrow> real" where
  "anim_progress anim current_time word_start =
     (let anim_elapsed = current_time - word_start - a_delay anim in
      if a_duration anim > 0 then min 1 (max 0 (anim_elapsed / a_duration anim)) else 1)"

text \<open>
  The animation loop of \<^verbatim>\<open>_create_element\<close>. An animation whose selector is
  \<^verbatim>\<open>"word"\<close> is interpolated only while its progress is below 1; \<^verbatim>\<open>element.update(props)\<close>
  is map override.
\<close>

fun apply_animations ::
  "(string \<Rightarrow> real option) \<Rightarrow> animation list \<Rightarrow> real \<Rightarrow> real \<Rightarrow> props \<Rightarrow> error + props" where
  "apply_animations pyfloat [] current_time word_start element = Inr element"
| "apply_animations pyfloat (anim # rest) current_time word_start element =
     (if a_selector anim = ''word'' then
        (if anim_progress anim current_time word_start < 1 then
           (case get_keyframes pyfloat anim of
              Inl e \<Rightarrow> Inl e
            | Inr keyframes \<Rightarrow>
                (case new_interpolator keyframes (a_easing anim) of
                   Inl e \<Rightarrow> Inl e
                 | Inr interpolator \<Rightarrow>
                     (case interpolate interpolator
                             (anim_progress anim current_time word_start) of
                        Inl e \<Rightarrow> Inl e
                      | Inr props \<Rightarrow>
                          apply_animations pyfloat rest current_time word_start
                            (element ++ props))))
         else apply_animations pyfloat rest current_time word_start element)
      else apply_animations pyfloat rest current_time word_start element)"

text \<open>The default properties of an element (\<^verbatim>\<open>styles.color or "#FFFFFF"\<close> included).\<close>

definition default_element :: "engine \<Rightarrow> word \<Rightarrow> style_config \<Rightarrow> props" where
  "default_element eng w styles =
     [''text'' \<mapsto> PStr (w_text w),
      ''x'' \<mapsto> PNum (of_int (fst (eng_resolution eng) div 2)),
      ''y'' \<mapsto> PNum (of_int (snd (eng_resolution eng) div 2)),
      ''opacity'' \<mapsto> PNum 1,
      ''scale'' \<mapsto> PNum 1,
      ''rotation'' \<mapsto> PNum 0,
      ''color'' \<mapsto> PStr (case color styles of
                            None \<Rightarrow> ''#FFFFFF''
                          | Some c \<Rightarrow> if c = [] then ''#FFFFFF'' else c),
      ''fontSize'' \<mapsto> PNum (of_int (font_size styles)),
      ''fontFamily'' \<mapsto> PStr (font_family styles),
      ''fontWeight'' \<mapsto> font_weight styles]"

text \<open>
  The shadow step: \<^verbatim>\<open>styles.effects and styles.effects.shadow\<close> holds when the effect
  configuration exists and its shadow dictionary is neither \<^verbatim>\<open>None\<close> nor empty.
\<close>

definition apply_shadow :: "style_config \<Rightarrow> props \<Rightarrow> props" where
  "apply_shadow styles element =
     (case effects styles of
        None \<Rightarrow> element
      | Some ec \<Rightarrow>
          (case e_shadow ec of
             None \<Rightarrow> element
           | Some sh \<Rightarrow> if sh = [] then element else element(''shadow'' \<mapsto> PDict sh)))"

text \<open>
  \<^verbatim>\<open>_create_element\<close>. The word-level \<^verbatim>\<open>progress\<close> that the source computes first is
  never read and is left out.
\<close>

definition create_element ::
  "(string \<Rightarrow> real option) \<Rightarrow> engine \<Rightarrow> word \<Rightarrow> segment \<Rightarrow> style_config \<Rightarrow> real \<Rightarrow> real \<Rightarrow> real
    \<Rightarrow> error + props" where
  "create_element pyfloat eng w seg styles current_time segment_start word_start =
     (case apply_animations pyfloat (animations styles) current_time word_start
             (default_element eng w styles) of
        Inl e \<Rightarrow> Inl e
      | Inr element \<Rightarrow> Inr (apply_shadow styles element))"

text \<open>\<^verbatim>\<open>_get_elements_at_time\<close>: the inner loop over the words of an active segment.\<close>

fun word_elements ::
  "(string \<Rightarrow> real option) \<Rightarrow> engine \<Rightarrow> segment \<Rightarrow> style_config \<Rightarrow> real \<Rightarrow> word list
    \<Rightarrow> error + props list" where
  "word_elements pyfloat eng seg styles timestamp [] = Inr []"
| "word_elements pyfloat eng seg styles timestamp (w # ws) =
     (if w_start w \<le> timestamp \<and> timestamp \<le> w_end w then
        (case create_element pyfloat eng w seg styles timestamp (s_start seg) (w_start w) of
           Inl e \<Rightarrow> Inl e
         | Inr element \<Rightarrow>
             (case word_elements pyfloat eng seg styles timestamp ws of
                Inl e \<Rightarrow> Inl e
              | Inr elements \<Rightarrow> Inr (element # elements)))
      else word_elements pyfloat eng seg styles timestamp ws)"

text \<open>The outer loop over the segments.\<close>

fun segment_elements ::
  "(string \<Rightarrow> real option) \<Rightarrow> engine \<Rightarrow> style_config \<Rightarrow> real \<Rightarrow> segment list
    \<Rightarrow> error + props list" where
  "segment_elements pyfloat eng styles timestamp [] = Inr []"
| "segment_elements pyfloat eng styles timestamp (seg # segs) =
     (if s_start seg \<le> timestamp \<and> timestamp \<le> s_end seg then
        (case word_elements pyfloat eng seg styles timestamp (s_words seg) of
           Inl e \<Rightarrow> Inl e
         | Inr elements \<Rightarrow>
             (case segment_elements pyfloat eng styles timestamp segs of
                Inl e \<Rightarrow> Inl e
              | Inr others \<Rightarrow> Inr (elements @ others)))
      else segment_elements pyfloat eng styles timestamp segs)"

definition get_elements_at_time ::
  "(string \<Rightarrow> real option) \<Rightarrow> engine \<Rightarrow> transcript \<Rightarrow> style_config \<Rightarrow> real
    \<Rightarrow> error + props list" where
  "get_elements_at_time pyfloat eng tr styles timestamp =
     segment_elements pyfloat eng styles timestamp (t_segments tr)"

text \<open>\<^verbatim>\<open>int(x)\<close> on a float truncates towards zero.\<close>

definition py_int :: "real \<Rightarrow> int" where
  "py_int x = (if 0 \<le> x then \<lfloor>x\<rfloor> else \<lceil>x\<rceil>)"

text \<open>The frame loop of \<^verbatim>\<open>compile\<close> over the indices of \<^verbatim>\<open>range(total_frames)\<close>.\<close>

fun build_frames ::
  "(string \<Rightarrow> real option) \<Rightarrow> engine \<Rightarrow> transcript \<Rightarrow> style_config \<Rightarrow> real \<Rightarrow> nat list
    \<Rightarrow> error + frame list" where
  "build_frames pyfloat eng tr styles frame_duration [] = Inr []"
| "build_frames pyfloat eng tr styles frame_duration (frame_idx # rest) =
     (let current_time = real frame_idx * frame_duration in
      case get_elements_at_time pyfloat eng tr styles current_time of
        Inl e \<Rightarrow> Inl e
      | Inr elements \<Rightarrow>
          (case build_frames pyfloat eng tr styles frame_duration rest of
             Inl e \<Rightarrow> Inl e
           | Inr frames \<Rightarrow> Inr (\<lparr>f_timestamp = current_time, f_elements = elements\<rparr> # frames)))"

text \<open>
  The override of the engine's resolution and fps from the styles. A two-element
  resolution is the only one that passes \<^verbatim>\<open>validate_styles\<close>.
\<close>

definition override_engine :: "engine \<Rightarrow> style_config \<Rightarrow> engine" where
  "override_engine eng styles =
     (let eng1 = (case resolution styles of
                    [w, h] \<Rightarrow> eng\<lparr>eng_resolution := (w, h)\<rparr>
                  | _ \<Rightarrow> eng)
      in if fps styles \<noteq> 0 then eng1\<lparr>eng_fps := fps styles\<rparr> else eng1)"

text \<open>
  \<^verbatim>\<open>compile\<close>. The transcript is validated in place, so the frames are built from the
  repaired transcript.
\<close>

definition compile ::
  "(string \<Rightarrow> real option) \<Rightarrow> engine \<Rightarrow> transcript \<Rightarrow> style_config \<Rightarrow> error + timeline" where
  "compile pyfloat eng0 tr0 styles =
     (case validate_transcript tr0 of
        Inl e \<Rightarrow> Inl e
      | Inr tr \<Rightarrow>
          (case validate_styles styles of
             Inl e \<Rightarrow> Inl e
           | Inr _ \<Rightarrow>
               (let eng = override_engine eng0 styles;
                    frame_duration = 1 / real_of_int (eng_fps eng);
                    total_frames = py_int (t_duration tr * real_of_int (eng_fps eng)) + 1
                in case build_frames pyfloat eng tr styles frame_duration
                          [0 ..< nat total_frames] of
                     Inl e \<Rightarrow> Inl e
                   | Inr frames \<Rightarrow>
                       Inr \<lparr>tl_frames = frames,
                            tl_duration = t_duration tr,
                            tl_fps = eng_fps eng,
                            tl_resolution = eng_resolution eng,
                            tl_styles = Some styles\<rparr>)))"

subsection \<open>Render loop\<close>

text \<open>
  A frame buffer is a dense array: its shape and its values in row-major order. The
  fallback frame stores the configured colour components, which for components in
  \<open>0..255\<close> is what the \<^verbatim>\<open>uint8\<close> array holds.
\<close>

record image =
  img_shape :: "int list"
  img_data :: "int list"

text \<open>The effect objects that \<^verbatim>\<open>render\<close> constructs, with their configured arguments.\<close>

datatype effect =
    GaussianBlur pval
  | GlowEffect pval pval pval

text \<open>
  The collaborators of the render loop: the rasterizer, the background video reader, the
  array blend of the compositing step (lines 227 to 234 of \<^verbatim>\<open>pipeline.py\<close>), the
  transfers to and from the device, the effects and the encoder's pipe. They are
  parameters; each may raise, and each takes the index of the frame it is called for, so
  that its behaviour may differ from frame to frame. \<open>pipe_fails k fb\<close> tells whether
  writing to the encoder's pipe fails for frame \<open>k\<close>, for the rendered frame
  (\<open>fb = False\<close>) or for the fallback frame (\<open>fb = True\<close>).
\<close>

record collaborators =
  rasterize :: "nat \<Rightarrow> props list \<Rightarrow> int \<times> int \<times> int \<times> int \<Rightarrow> error + image"
  has_video_reader :: bool
  get_frame :: "nat \<Rightarrow> real \<Rightarrow> error + image option"
  resize_frame :: "nat \<Rightarrow> image \<Rightarrow> int \<times> int \<Rightarrow> error + image"
  blend :: "nat \<Rightarrow> image \<Rightarrow> image \<Rightarrow> error + image"
  transfer_to_gpu :: "nat \<Rightarrow> image \<Rightarrow> error + image"
  effect_apply :: "nat \<Rightarrow> effect \<Rightarrow> image \<Rightarrow> error + image"
  transfer_to_cpu :: "nat \<Rightarrow> image \<Rightarrow> error + image"
  pipe_fails :: "nat \<Rightarrow> bool \<Rightarrow> bool"
  encoder_start :: "error option"
  encoder_finish :: "error option"





text \<open>
  \<^verbatim>\<open>FFmpegEncoder.write_frame\<close> on a started encoder of the timeline's resolution: the
  two shape checks, then the write to the pipe.
\<close>

definition write_frame :: "collaborators \<Rightarrow> int \<times> int \<Rightarrow> nat \<Rightarrow> bool \<Rightarrow> image \<Rightarrow> error + unit" where
  "write_frame env res k fb frame =
     (let width = fst res; height = snd res in
      if take 2 (img_shape frame) \<noteq> [height, width] then
        Inl (EncodingError ''Frame size mismatch'')
      else if \<not> (length (img_shape frame) = 3 \<and> img_shape frame ! 2 = 4) then
        Inl (EncodingError ''Invalid frame format'')
      else if pipe_fails env k fb then Inl (EncodingError ''Failed to write frame'')
      else Inr ())"











subsection \<open>Predicates used in the statements\<close>




text \<open>
  A validated transcript in which no segment starts before 0 and every word ends after it
  starts.
\<close>

definition positive_timing :: "transcript \<Rightarrow> bool" where
  "positive_timing tr =
     list_all (\<lambda>g. 0 \<le> s_start g \<and> list_all (\<lambda>w. w_start w < w_end w) (s_words g))
       (t_segments tr)"

text \<open>
  The numbers that the keys of an animation's keyframe dictionary denote, as
  \<^verbatim>\<open>get_keyframes\<close> reads them (before the division by 100).
\<close>

definition keyframe_percents :: "(string \<Rightarrow> real option) \<Rightarrow> animation \<Rightarrow> real option list" where
  "keyframe_percents pyfloat anim =
     map (\<lambda>kv. pyfloat (rstrip_percent (fst kv))) (a_keyframes anim)"


subsection \<open>Example data\<close>

text \<open>The fade-in keyframes \<^verbatim>\<open>{"0%": {"opacity": 0}, "100%": {"opacity": 1}}\<close>.\<close>

definition fade_in_start :: keyframe where
  "fade_in_start = \<lparr>kf_time = 0, kf_properties = [''opacity'' \<mapsto> PNum 0]\<rparr>"

definition fade_in_end :: keyframe where
  "fade_in_end = \<lparr>kf_time = 1, kf_properties = [''opacity'' \<mapsto> PNum 1]\<rparr>"


text \<open>
  A segment whose range is inverted, with a plain word, a word that ends before it starts
  and a word of zero duration.
\<close>

definition ex_words :: "word list" where
  "ex_words =
     [\<lparr>w_text = ''a'', w_start = 2, w_end = 5, w_id = None\<rparr>,
      \<lparr>w_text = ''b'', w_start = 4, w_end = 3, w_id = None\<rparr>,
      \<lparr>w_text = ''c'', w_start = 3, w_end = 3, w_id = None\<rparr>]"

definition ex_segment :: segment where
  "ex_segment = \<lparr>s_text = ''a b c'', s_start = 3, s_end = 1, s_words = ex_words,
                  s_id = None, s_speaker_id = None\<rparr>"

definition ex_transcript :: transcript where
  "ex_transcript = \<lparr>t_segments = [ex_segment], t_duration = 6, t_language = None, t_text = None\<rparr>"

definition ex_words_fixed :: "word list" where
  "ex_words_fixed =
     [\<lparr>w_text = ''a'', w_start = 2, w_end = 5, w_id = None\<rparr>,
      \<lparr>w_text = ''b'', w_start = 4, w_end = 4.01, w_id = None\<rparr>,
      \<lparr>w_text = ''c'', w_start = 3, w_end = 3.01, w_id = None\<rparr>]"

text \<open>A zero-duration word that starts after its segment has ended.\<close>

definition late_word :: word where
  "late_word = \<lparr>w_text = ''x'', w_start = 5, w_end = 5, w_id = None\<rparr>"

definition late_segment :: segment where
  "late_segment = \<lparr>s_text = ''x'', s_start = 0, s_end = 1, s_words = [late_word],
                    s_id = None, s_speaker_id = None\<rparr>"

definition late_transcript :: transcript where
  "late_transcript =
     \<lparr>t_segments = [late_segment], t_duration = 6, t_language = None, t_text = None\<rparr>"

definition late_transcript_once :: transcript where
  "late_transcript_once =
     late_transcript\<lparr>t_segments := [late_segment\<lparr>s_words := [late_word\<lparr>w_end := 1\<rparr>]\<rparr>]\<rparr>"

definition late_transcript_twice :: transcript where
  "late_transcript_twice =
     late_transcript\<lparr>t_segments :=
       [late_segment\<lparr>s_end := 5.01, s_words := [late_word\<lparr>w_end := 5.01\<rparr>]\<rparr>]\<rparr>"

text \<open>The transcript and the styles of \<^verbatim>\<open>test_render.py\<close>, at 2 frames per second.\<close>

definition hello_word :: word where
  "hello_word = \<lparr>w_text = ''Hello'', w_start = 0, w_end = 0.5, w_id = None\<rparr>"

definition world_word :: word where
  "world_word = \<lparr>w_text = ''World'', w_start = 0.6, w_end = 1, w_id = None\<rparr>"

definition hello_segment :: segment where
  "hello_segment =
     \<lparr>s_text = ''Hello World'', s_start = 0, s_end = 1, s_words = [hello_word, world_word],
      s_id = None, s_speaker_id = None\<rparr>"

definition hello_transcript :: transcript where
  "hello_transcript =
     \<lparr>t_segments = [hello_segment], t_duration = 1, t_language = None, t_text = None\<rparr>"

definition plain_styles :: style_config where
  "plain_styles =
     \<lparr>font_family = ''Arial'', font_size = 72, resolution = [1920, 1080], fps = 2,
      background_color = (0, 0, 0, 255), animations = [], effects = None,
      color = Some ''#FFFFFF'', font_weight = PNone\<rparr>"

definition engine0 :: engine where
  "engine0 = \<lparr>eng_resolution = (1920, 1080), eng_fps = 60\<rparr>"




text \<open>An animation whose only keyframe is at 50%.\<close>

definition half_only :: animation where
  "half_only =
     \<lparr>a_selector = ''word'',
      a_keyframes = [(''50%'', [''opacity'' \<mapsto> PNum (1 / 2)])],
      a_duration = 1 / 2, a_easing = ''linear'', a_delay = 0, a_stagger = None\<rparr>"

definition half_only_styles :: style_config where
  "half_only_styles = plain_styles\<lparr>animations := [half_only]\<rparr>"



definition grey_pixel :: image where
  "grey_pixel = \<lparr>img_shape = [1, 1, 4], img_data = [9, 9, 9, 9]\<rparr>"


text \<open>Collaborators that all succeed; the effects leave the frame as it is.\<close>

definition working :: collaborators where
  "working =
     \<lparr>rasterize = (\<lambda>k elements bg. Inr grey_pixel),
      has_video_reader = False,
      get_frame = (\<lambda>k t. Inr None),
      resize_frame = (\<lambda>k img res. Inr img),
      blend = (\<lambda>k fg bg. Inr fg),
      transfer_to_gpu = (\<lambda>k img. Inr img),
      effect_apply = (\<lambda>k eff img. Inr img),
      transfer_to_cpu = (\<lambda>k img. Inr img),
      pipe_fails = (\<lambda>k fb. False),
      encoder_start = None,
      encoder_finish = None\<rparr>"



section \<open>Easing lookup\<close>

lemma scan_lower_map_of:
  "distinct (map (lower \<circ> fst) m) \<Longrightarrow> map_of m k = Some f \<Longrightarrow> scan_lower m (lower k) = f"
proof (induction m)
  case Nil
  then show ?case by simp
next
  case (Cons a m)
  obtain k' f' where a: "a = (k', f')" by (cases a)
  show ?case
  proof (cases "k' = k")
    case True
    with Cons a show ?thesis by simp
  next
    case False
    with Cons a have mk: "map_of m k = Some f" by simp
    then have "k \<in> fst ` set m" by (metis map_of_eq_None_iff option.distinct(1))
    then have "lower k \<in> set (map (lower \<circ> fst) m)" by force
    moreover from Cons.prems(1) a have "lower k' \<notin> set (map (lower \<circ> fst) m)" by simp
    ultimately have "lower k' \<noteq> lower k" by metis
    with Cons mk a show ?thesis by simp
  qed
qed

lemma lower_keys_distinct: "distinct (map (lower \<circ> fst) EASING_MAP)"
  by (simp add: EASING_MAP_def lower_def lower_char_def)

text \<open>The exact match never disagrees with the case-insensitive scan.\<close>

lemma get_easing_scan: "get_easing_function name = scan_lower EASING_MAP (lower name)"
  by (auto simp: get_easing_function_def scan_lower_map_of[OF lower_keys_distinct]
      split: option.splits)

lemma scan_lower_none:
  "n \<notin> set (map (lower \<circ> fst) m) \<Longrightarrow> scan_lower m n = Linear"
  by (induction m) auto

text \<open>
  Claim C8. Easing lookup is a total function of the name, so it never raises. It is
  case-insensitive: two names with the same lower-case form resolve to the same curve
  function. A name whose lower-case form is the lower-case form of no registry key
  resolves to the linear function.
\<close>

theorem easing_lookup_case_insensitive:
  "(lower a = lower b \<longrightarrow> get_easing_function a = get_easing_function b) \<and>
   (lower name \<notin> set (map (lower \<circ> fst) EASING_MAP) \<longrightarrow> get_easing_function name = Linear)"
  by (simp add: get_easing_scan scan_lower_none del: map_map)

text \<open>
  C8 at concrete names: \<^verbatim>\<open>EASEINBACK\<close> and \<^verbatim>\<open>easeInBack\<close> resolve to the same curve,
  and \<^verbatim>\<open>bogus\<close> resolves to the linear one.
\<close>

theorem easing_lookup_case_insensitive_witness:
  "lower ''EASEINBACK'' = lower ''easeInBack''
   \<and> get_easing_function ''EASEINBACK'' = get_easing_function ''easeInBack''
   \<and> get_easing_function ''easeInBack'' = EaseInBack
   \<and> get_easing_function ''bogus'' = Linear"
proof -
  have l: "lower ''EASEINBACK'' = lower ''easeInBack''" by code_simp
  have n: "lower ''bogus'' \<notin> set (map (lower \<circ> fst) EASING_MAP)" by code_simp
  have b: "get_easing_function ''easeInBack'' = EaseInBack" by code_simp
  from easing_lookup_case_insensitive[of "''EASEINBACK''" "''easeInBack''" "''bogus''"] l n b
  show ?thesis by blast
qed


section \<open>Keyframe interpolation\<close>

lemma new_interpolator_Inr:
  assumes "new_interpolator kfs name = Inr ip"
  shows "ip_keyframes ip = sort_key kf_time kfs"
    and "ip_easing_func ip = get_easing_function name"
    and "ip_keyframes ip \<noteq> []"
    and "kf_time (hd (ip_keyframes ip)) = 0"
    and "kf_time (last (ip_keyframes ip)) = 1"
    and "sorted (map kf_time (ip_keyframes ip))"
  using assms by (auto simp: new_interpolator_def Let_def split: if_splits)

lemma find_bracket_below:
  "kfs \<noteq> [] \<Longrightarrow> \<forall>kf \<in> set kfs. e < kf_time kf \<Longrightarrow>
     find_bracket kfs e = Inr (kf_properties (last kfs))"
  by (induction kfs e rule: find_bracket.induct) auto

lemma sorted_hd_le:
  "sorted (map f xs) \<Longrightarrow> x \<in> set xs \<Longrightarrow> f (hd xs) \<le> f x"
  by (cases xs) auto


lemma fade_in_back:
  "new_interpolator [fade_in_start, fade_in_end] ''easeInBack'' =
     Inr \<lparr>ip_keyframes = [fade_in_start, fade_in_end], ip_easing_func = EaseInBack\<rparr>"
  by (simp add: new_interpolator_def fade_in_start_def fade_in_end_def get_easing_function_def
      EASING_MAP_def Let_def)


text \<open>
  Claim C10. For every valid keyframe set and every input whose eased value is strictly
  negative, \<^verbatim>\<open>interpolate\<close> returns the last keyframe's properties: every keyframe time
  is at least 0, so no bracket matches.
\<close>

theorem negative_eased_value_returns_last:
  assumes "new_interpolator kfs name = Inr ip"
    and "ease (ip_easing_func ip) (max 0 (min 1 t)) < 0"
  shows "interpolate ip t = Inr (kf_properties (last (ip_keyframes ip)))"
proof -
  note v = new_interpolator_Inr[OF assms(1)]
  have "\<forall>kf \<in> set (ip_keyframes ip). ease (ip_easing_func ip) (max 0 (min 1 t)) < kf_time kf"
  proof
    fix kf
    assume "kf \<in> set (ip_keyframes ip)"
    from sorted_hd_le[OF v(6) this] v(4) have "0 \<le> kf_time kf" by simp
    with assms(2) show "ease (ip_easing_func ip) (max 0 (min 1 t)) < kf_time kf" by linarith
  qed
  from find_bracket_below[OF v(3) this] show ?thesis
    by (simp add: interpolate_def Let_def)
qed

text \<open>
  C10 on the fade-in keyframes with \<^verbatim>\<open>easeInBack\<close> at \<open>t = 0.5\<close>: the eased value is
  negative and the result is the 100% keyframe, which differs from the 0% keyframe.
\<close>

theorem negative_eased_value_returns_last_witness:
  "new_interpolator [fade_in_start, fade_in_end] ''easeInBack'' =
     Inr \<lparr>ip_keyframes = [fade_in_start, fade_in_end], ip_easing_func = EaseInBack\<rparr>
   \<and> ease EaseInBack (max 0 (min 1 (1 / 2))) < 0
   \<and> interpolate \<lparr>ip_keyframes = [fade_in_start, fade_in_end], ip_easing_func = EaseInBack\<rparr> (1 / 2)
       = Inr (kf_properties fade_in_end)
   \<and> kf_properties fade_in_end \<noteq> kf_properties fade_in_start"
proof -
  have neg: "ease EaseInBack (max 0 (min 1 (1 / 2))) < 0"
    by (simp add: ease_in_back_def Let_def)
  have neq: "kf_properties fade_in_end \<noteq> kf_properties fade_in_start"
  proof
    assume "kf_properties fade_in_end = kf_properties fade_in_start"
    then have "kf_properties fade_in_end ''opacity'' = kf_properties fade_in_start ''opacity''"
      by simp
    then show False by (simp add: fade_in_start_def fade_in_end_def)
  qed
  from negative_eased_value_returns_last[OF fade_in_back, of "1 / 2"] neg fade_in_back neq
  show ?thesis by simp
qed

subsection \<open>The end points under linear easing\<close>













section \<open>Transcript validation\<close>

lemma fold_min_Min:
  "fold (\<lambda>v m. min m (f v)) ws (a::real) = Min (insert a (f ` set ws))"
proof (induction ws arbitrary: a)
  case Nil then show ?case by simp
next
  case (Cons w ws)
  have "Min (insert (min a (f w)) (f ` set ws)) = Min (insert a (insert (f w) (f ` set ws)))"
    by (cases "ws = []") (simp_all add: min.assoc)
  with Cons show ?case by simp
qed

lemma fold_max_Max:
  "fold (\<lambda>v m. max m (f v)) ws (a::real) = Max (insert a (f ` set ws))"
proof (induction ws arbitrary: a)
  case Nil then show ?case by simp
next
  case (Cons w ws)
  have "Max (insert (max a (f w)) (f ` set ws)) = Max (insert a (insert (f w) (f ` set ws)))"
    by (cases "ws = []") (simp_all add: max.assoc)
  with Cons show ?case by simp
qed

lemma min_start_Min: "ws \<noteq> [] \<Longrightarrow> min_start ws = Min (w_start ` set ws)"
  by (cases ws) (simp_all add: fold_min_Min)

lemma max_end_Max: "ws \<noteq> [] \<Longrightarrow> max_end ws = Max (w_end ` set ws)"
  by (cases ws) (simp_all add: fold_max_Max)

lemma fix_word_start: "w_start (fix_word w e) = w_start w"
  by (simp add: fix_word_def)

lemma fix_words_Cons:
  "fix_words (w # ws) s e =
     (fix_word w e # fst (fix_words ws (min s (w_start w)) (max e (w_end (fix_word w e)))),
      snd (fix_words ws (min s (w_start w)) (max e (w_end (fix_word w e)))))"
proof -
  have a: "(if w_start (fix_word w e) < s then w_start (fix_word w e) else s) = min s (w_start w)"
    by (simp add: fix_word_start min_def)
  have b: "(if w_end (fix_word w e) > e then w_end (fix_word w e) else e) = max e (w_end (fix_word w e))"
    by (simp add: max_def)
  show ?thesis
    unfolding fix_words.simps Let_def a b by (simp add: case_prod_beta)
qed

lemma fix_words_length: "length (fst (fix_words ws s e)) = length ws"
  by (induction ws arbitrary: s e) (simp_all add: fix_words_Cons del: fix_words.simps(2))

lemma fix_words_bounds:
  "fst (snd (fix_words ws s e)) \<le> s \<and> e \<le> snd (snd (fix_words ws s e)) \<and>
   (\<forall>w \<in> set (fst (fix_words ws s e)).
       fst (snd (fix_words ws s e)) \<le> w_start w \<and> w_end w \<le> snd (snd (fix_words ws s e)))"
proof (induction ws arbitrary: s e)
  case Nil then show ?case by simp
next
  case (Cons w ws)
  let ?s1 = "min s (w_start w)" and ?e1 = "max e (w_end (fix_word w e))"
  from Cons[of ?s1 ?e1]
  have ih: "fst (snd (fix_words ws ?s1 ?e1)) \<le> ?s1" "?e1 \<le> snd (snd (fix_words ws ?s1 ?e1))"
     "\<forall>w \<in> set (fst (fix_words ws ?s1 ?e1)).
       fst (snd (fix_words ws ?s1 ?e1)) \<le> w_start w \<and> w_end w \<le> snd (snd (fix_words ws ?s1 ?e1))"
    by blast+
  from ih(1,2) have "fst (snd (fix_words ws ?s1 ?e1)) \<le> s" "e \<le> snd (snd (fix_words ws ?s1 ?e1))"
    "fst (snd (fix_words ws ?s1 ?e1)) \<le> w_start (fix_word w e)"
    "w_end (fix_word w e) \<le> snd (snd (fix_words ws ?s1 ?e1))"
    by (simp_all add: fix_word_start)
  with ih(3) show ?case
    by (simp add: fix_words_Cons del: fix_words.simps(2))
qed

lemma Max_insert_max:
  "finite T \<Longrightarrow> Max (insert (max a b) T) = Max (insert (a::real) (insert b T))"
  by (cases "T = {}") (simp_all add: max.assoc)

lemma fix_words_nth:
  "j < length ws \<Longrightarrow>
     fst (fix_words ws s e) ! j =
       fix_word (ws ! j) (Max (insert e (w_end ` set (take j (fst (fix_words ws s e))))))"
proof (induction ws arbitrary: s e j)
  case Nil then show ?case by simp
next
  case (Cons w ws)
  let ?w1 = "fix_word w e"
  let ?s1 = "min s (w_start w)" and ?e1 = "max e (w_end (fix_word w e))"
  have fw: "fst (fix_words (w # ws) s e) = ?w1 # fst (fix_words ws ?s1 ?e1)"
    by (simp add: fix_words_Cons del: fix_words.simps(2))
  show ?case
  proof (cases j)
    case 0
    then show ?thesis by (simp add: fw del: fix_words.simps(2))
  next
    case (Suc i)
    with Cons.prems have i: "i < length ws" by simp
    let ?T = "w_end ` set (take i (fst (fix_words ws ?s1 ?e1)))"
    have "Max (insert ?e1 ?T) = Max (insert e (insert (w_end ?w1) ?T))"
      by (rule Max_insert_max) simp
    with Cons.IH[OF i, of ?s1 ?e1] Suc show ?thesis
      by (simp add: fw del: fix_words.simps(2))
  qed
qed

lemma validate_segment_eq:
  "validate_segment seg =
     (fix_range (clamp_start seg))
       \<lparr>s_start := fst (snd (fix_words (s_words seg) (s_start (fix_range (clamp_start seg))) (s_end (fix_range (clamp_start seg))))),
        s_end := snd (snd (fix_words (s_words seg) (s_start (fix_range (clamp_start seg))) (s_end (fix_range (clamp_start seg))))),
        s_words := fst (fix_words (s_words seg) (s_start (fix_range (clamp_start seg))) (s_end (fix_range (clamp_start seg))))\<rparr>"
proof -
  have "s_words (fix_range (clamp_start seg)) = s_words seg"
    by (simp add: fix_range_def clamp_start_def Let_def)
  then show ?thesis
    by (simp add: validate_segment_def Let_def case_prod_beta)
qed

lemma fix_range_repair:
  assumes "s_words seg \<noteq> []" "s_end seg \<le> s_start seg"
  shows "s_start (fix_range (clamp_start seg)) = Min (w_start ` set (s_words seg))"
    and "s_end (fix_range (clamp_start seg)) =
          (if Max (w_end ` set (s_words seg)) \<le> Min (w_start ` set (s_words seg))
           then Min (w_start ` set (s_words seg)) + 0.1
           else Max (w_end ` set (s_words seg)))"
proof -
  have le: "s_end (clamp_start seg) \<le> s_start (clamp_start seg)"
    using assms(2) by (simp add: clamp_start_def)
  have ws: "s_words (clamp_start seg) = s_words seg" by (simp add: clamp_start_def)
  show "s_start (fix_range (clamp_start seg)) = Min (w_start ` set (s_words seg))"
    using le assms(1) by (simp add: fix_range_def Let_def ws min_start_Min)
  show "s_end (fix_range (clamp_start seg)) =
          (if Max (w_end ` set (s_words seg)) \<le> Min (w_start ` set (s_words seg))
           then Min (w_start ` set (s_words seg)) + 0.1
           else Max (w_end ` set (s_words seg)))"
    using le assms(1) by (simp add: fix_range_def Let_def ws min_start_Min max_end_Max)
qed

lemma fix_range_proper:
  "s_start (fix_range seg) < s_end (fix_range seg)"
  by (simp add: fix_range_def Let_def)

lemma valid_segments_eq:
  "valid_segments segs = map validate_segment (filter (\<lambda>seg. s_words seg \<noteq> []) segs)"
  by (induction segs) simp_all

lemma validate_transcript_Inr:
  "validate_transcript tr = Inr tr' \<Longrightarrow>
     tr' = tr\<lparr>t_segments := map validate_segment (filter (\<lambda>seg. s_words seg \<noteq> []) (t_segments tr))\<rparr>"
  by (auto simp: validate_transcript_def Let_def valid_segments_eq split: if_splits)

lemma fix_words_hull:
  "fst (snd (fix_words ws s e)) = Min (insert s (w_start ` set ws)) \<and>
   snd (snd (fix_words ws s e)) = Max (insert e (w_end ` set (fst (fix_words ws s e))))"
proof (induction ws arbitrary: s e)
  case Nil then show ?case by simp
next
  case (Cons w ws)
  let ?s1 = "min s (w_start w)" and ?e1 = "max e (w_end (fix_word w e))"
  let ?S = "w_start ` set ws" and ?E = "w_end ` set (fst (fix_words ws ?s1 ?e1))"
  have a: "Min (insert ?s1 ?S) = Min (insert s (insert (w_start w) ?S))"
    by (cases "?S = {}") (simp_all add: min.assoc)
  have b: "Max (insert ?e1 ?E) = Max (insert e (insert (w_end (fix_word w e)) ?E))"
    by (rule Max_insert_max) simp
  from Cons[of ?s1 ?e1] a b show ?case
    by (simp add: fix_words_Cons del: fix_words.simps(2))
qed

lemma fix_words_nth_cases:
  assumes "j < length ws"
  shows "let w = ws ! j; w' = fst (fix_words ws s e) ! j;
             cur_end = Max (insert e (w_end ` set (take j (fst (fix_words ws s e)))))
         in w_start w' = w_start w
          \<and> (w_end w < w_start w \<longrightarrow> w_end w' = w_start w + 0.01)
          \<and> (w_end w = w_start w \<longrightarrow> w_end w' = min (w_start w + 0.01) cur_end)
          \<and> (w_start w < w_end w \<longrightarrow> w' = w)"
  unfolding Let_def fix_words_nth[OF assms] by (simp add: fix_word_def)

lemma ex_validate_segment:
  "validate_segment ex_segment =
     ex_segment\<lparr>s_start := 2, s_end := 5, s_words := ex_words_fixed\<rparr>"
  by (simp add: validate_segment_def ex_segment_def ex_words_def ex_words_fixed_def
      clamp_start_def fix_range_def fix_word_def Let_def)

lemma ex_validate:
  "validate_transcript ex_transcript =
     Inr (ex_transcript\<lparr>t_segments :=
            [ex_segment\<lparr>s_start := 2, s_end := 5, s_words := ex_words_fixed\<rparr>]\<rparr>)"
proof -
  have "s_words ex_segment \<noteq> []" by (simp add: ex_segment_def ex_words_def)
  then show ?thesis
    by (simp add: validate_transcript_def ex_transcript_def Let_def ex_validate_segment)
qed

text \<open>
  Claim C5. When \<^verbatim>\<open>validate_transcript\<close> succeeds, its segments are the repaired
  segments that have words, in order. For every segment with words: if its end is not
  after its start, the range repair sets its start to the minimum word start and its end
  to the maximum word end, or to start + 0.1 if that is still not after the start; every
  word keeps its start; a word with end before start gets end = start + 0.01; a word with
  end equal to start gets end = min (start + 0.01) (segment end), the segment end being
  the current one, that is the largest of the repaired range's end and the ends of the
  words repaired before it; any other word is unchanged; and the final bounds are the
  repaired range moved out, never in, to cover every word.
\<close>

theorem validate_transcript_repairs:
  assumes "validate_transcript tr = Inr tr'"
    and "seg \<in> set (t_segments tr)" and "s_words seg \<noteq> []"
  shows "t_segments tr' = map validate_segment (filter (\<lambda>g. s_words g \<noteq> []) (t_segments tr))
    \<and> validate_segment seg \<in> set (t_segments tr')
    \<and> (s_end seg \<le> s_start seg \<longrightarrow>
          s_start (fix_range (clamp_start seg)) = Min (w_start ` set (s_words seg))
        \<and> s_end (fix_range (clamp_start seg)) =
            (if Max (w_end ` set (s_words seg)) \<le> Min (w_start ` set (s_words seg))
             then Min (w_start ` set (s_words seg)) + 0.1
             else Max (w_end ` set (s_words seg))))
    \<and> length (s_words (validate_segment seg)) = length (s_words seg)
    \<and> (\<forall>j < length (s_words seg).
          let w = s_words seg ! j; w' = s_words (validate_segment seg) ! j;
              cur_end = Max (insert (s_end (fix_range (clamp_start seg)))
                               (w_end ` set (take j (s_words (validate_segment seg)))))
          in w_start w' = w_start w
           \<and> (w_end w < w_start w \<longrightarrow> w_end w' = w_start w + 0.01)
           \<and> (w_end w = w_start w \<longrightarrow> w_end w' = min (w_start w + 0.01) cur_end)
           \<and> (w_start w < w_end w \<longrightarrow> w' = w))
    \<and> s_start (validate_segment seg) =
         Min (insert (s_start (fix_range (clamp_start seg))) (w_start ` set (s_words seg)))
    \<and> s_end (validate_segment seg) =
         Max (insert (s_end (fix_range (clamp_start seg)))
                     (w_end ` set (s_words (validate_segment seg))))
    \<and> s_start (validate_segment seg) \<le> s_start (fix_range (clamp_start seg))
    \<and> s_end (fix_range (clamp_start seg)) \<le> s_end (validate_segment seg)
    \<and> (\<forall>w' \<in> set (s_words (validate_segment seg)).
          s_start (validate_segment seg) \<le> w_start w' \<and> w_end w' \<le> s_end (validate_segment seg))"
proof -
  let ?r = "fix_range (clamp_start seg)"
  let ?fw = "fix_words (s_words seg) (s_start ?r) (s_end ?r)"
  have segs: "t_segments tr' = map validate_segment (filter (\<lambda>g. s_words g \<noteq> []) (t_segments tr))"
    using validate_transcript_Inr[OF assms(1)] by simp
  have mem: "validate_segment seg \<in> set (t_segments tr')"
    unfolding segs using assms(2,3) by simp
  have v: "s_start (validate_segment seg) = fst (snd ?fw)"
          "s_end (validate_segment seg) = snd (snd ?fw)"
          "s_words (validate_segment seg) = fst ?fw"
    by (simp_all add: validate_segment_eq)
  have rep: "s_end seg \<le> s_start seg \<longrightarrow>
          s_start ?r = Min (w_start ` set (s_words seg))
        \<and> s_end ?r =
            (if Max (w_end ` set (s_words seg)) \<le> Min (w_start ` set (s_words seg))
             then Min (w_start ` set (s_words seg)) + 0.1
             else Max (w_end ` set (s_words seg)))"
    using fix_range_repair[OF assms(3)] by blast
  have len: "length (s_words (validate_segment seg)) = length (s_words seg)"
    unfolding v by (rule fix_words_length)
  have nth: "\<forall>j < length (s_words seg).
          let w = s_words seg ! j; w' = s_words (validate_segment seg) ! j;
              cur_end = Max (insert (s_end ?r)
                               (w_end ` set (take j (s_words (validate_segment seg)))))
          in w_start w' = w_start w
           \<and> (w_end w < w_start w \<longrightarrow> w_end w' = w_start w + 0.01)
           \<and> (w_end w = w_start w \<longrightarrow> w_end w' = min (w_start w + 0.01) cur_end)
           \<and> (w_start w < w_end w \<longrightarrow> w' = w)"
    unfolding v using fix_words_nth_cases by blast
  have hull: "s_start (validate_segment seg) = Min (insert (s_start ?r) (w_start ` set (s_words seg)))"
     "s_end (validate_segment seg) = Max (insert (s_end ?r) (w_end ` set (s_words (validate_segment seg))))"
    unfolding v using fix_words_hull[of "s_words seg" "s_start ?r" "s_end ?r"] by blast+
  have bnd: "s_start (validate_segment seg) \<le> s_start ?r"
      "s_end ?r \<le> s_end (validate_segment seg)"
      "\<forall>w' \<in> set (s_words (validate_segment seg)).
          s_start (validate_segment seg) \<le> w_start w' \<and> w_end w' \<le> s_end (validate_segment seg)"
    unfolding v using fix_words_bounds[of "s_words seg" "s_start ?r" "s_end ?r"] by blast+
  from segs mem rep len nth hull bnd show ?thesis by blast
qed

text \<open>
  C5 on a segment with range \<open>[3, 1]\<close> and words \<open>[2, 5]\<close>, \<open>[4, 3]\<close>, \<open>[3, 3]\<close>: the
  segment becomes \<open>[2, 5]\<close>, the second word ends at 4.01 and the third at 3.01.
\<close>

theorem validate_transcript_repairs_witness:
  "validate_transcript ex_transcript =
     Inr (ex_transcript\<lparr>t_segments :=
            [ex_segment\<lparr>s_start := 2, s_end := 5, s_words := ex_words_fixed\<rparr>]\<rparr>)
   \<and> ex_segment \<in> set (t_segments ex_transcript)
   \<and> s_words ex_segment \<noteq> []
   \<and> s_end ex_segment \<le> s_start ex_segment
   \<and> s_start (fix_range (clamp_start ex_segment)) = 2
   \<and> s_end (fix_range (clamp_start ex_segment)) = 5
   \<and> w_end (s_words (validate_segment ex_segment) ! 1) = 4.01
   \<and> w_end (s_words (validate_segment ex_segment) ! 2) = 3.01
   \<and> s_start (validate_segment ex_segment) = 2
   \<and> s_end (validate_segment ex_segment) = 5"
proof -
  have h2: "ex_segment \<in> set (t_segments ex_transcript)" by (simp add: ex_transcript_def)
  have h3: "s_words ex_segment \<noteq> []" by (simp add: ex_segment_def ex_words_def)
  have h4: "s_end ex_segment \<le> s_start ex_segment" by (simp add: ex_segment_def)
  have mn: "Min (w_start ` set (s_words ex_segment)) = 2"
    by (simp add: ex_segment_def ex_words_def)
  have mx: "Max (w_end ` set (s_words ex_segment)) = 5"
    by (simp add: ex_segment_def ex_words_def)
  from validate_transcript_repairs[OF ex_validate h2 h3] h4 mn mx
  have "s_start (fix_range (clamp_start ex_segment)) = 2"
    "s_end (fix_range (clamp_start ex_segment)) = 5"
    by simp_all
  with ex_validate h2 h3 h4 show ?thesis
    by (simp add: ex_validate_segment ex_words_fixed_def)
qed

subsection \<open>Validating twice\<close>

lemma fix_words_id:
  "\<forall>w \<in> set ws. w_start w < w_end w \<and> s \<le> w_start w \<and> w_end w \<le> e \<Longrightarrow>
     fix_words ws s e = (ws, s, e)"
proof (induction ws)
  case Nil then show ?case by simp
next
  case (Cons w ws)
  then have w: "w_start w < w_end w" "s \<le> w_start w" "w_end w \<le> e" by simp_all
  then have "fix_word w e = w" by (simp add: fix_word_def)
  moreover from w have "min s (w_start w) = s" "max e (w_end w) = e" by simp_all
  moreover from Cons have "fix_words ws s e = (ws, s, e)" by simp
  ultimately show ?case by (simp add: fix_words_Cons del: fix_words.simps(2))
qed

lemma validate_segment_id:
  assumes "0 \<le> s_start g" "s_start g < s_end g"
    and "\<forall>w \<in> set (s_words g). w_start w < w_end w \<and> s_start g \<le> w_start w \<and> w_end w \<le> s_end g"
  shows "validate_segment g = g"
proof -
  from assms(1) have c: "clamp_start g = g" by (simp add: clamp_start_def)
  from assms(2) have r: "fix_range g = g" by (simp add: fix_range_def)
  show ?thesis
    by (simp add: validate_segment_def c r fix_words_id[OF assms(3)])
qed

lemma validate_segment_proper:
  "s_start (validate_segment seg) < s_end (validate_segment seg)"
proof -
  let ?r = "fix_range (clamp_start seg)"
  have "fst (snd (fix_words (s_words seg) (s_start ?r) (s_end ?r))) \<le> s_start ?r"
       "s_end ?r \<le> snd (snd (fix_words (s_words seg) (s_start ?r) (s_end ?r)))"
    using fix_words_bounds[of "s_words seg" "s_start ?r" "s_end ?r"] by blast+
  with fix_range_proper[of "clamp_start seg"] show ?thesis
    by (simp add: validate_segment_eq)
qed

lemma validate_segment_covers:
  "w \<in> set (s_words (validate_segment seg)) \<Longrightarrow>
     s_start (validate_segment seg) \<le> w_start w \<and> w_end w \<le> s_end (validate_segment seg)"
  using fix_words_bounds[of "s_words seg" "s_start (fix_range (clamp_start seg))" "s_end (fix_range (clamp_start seg))"]
  by (simp add: validate_segment_eq)

lemma validate_segment_words:
  "s_words seg \<noteq> [] \<Longrightarrow> s_words (validate_segment seg) \<noteq> []"
  using fix_words_length[of "s_words seg" "s_start (fix_range (clamp_start seg))" "s_end (fix_range (clamp_start seg))"]
  by (auto simp: validate_segment_eq)

lemma valid_segments_id:
  "\<forall>g \<in> set segs. s_words g \<noteq> [] \<and> validate_segment g = g \<Longrightarrow> valid_segments segs = segs"
  by (induction segs) simp_all

lemma hello_validate: "validate_transcript hello_transcript = Inr hello_transcript"
  by (simp add: validate_transcript_def hello_transcript_def hello_segment_def hello_word_def
      world_word_def validate_segment_def clamp_start_def fix_range_def fix_word_def Let_def)

text \<open>
  Claim C6, as amended. For every transcript on which \<^verbatim>\<open>validate_transcript\<close> has
  run successfully and whose result has no segment that starts before 0 and no word
  whose end is not after its start, running it a second time changes nothing.
\<close>

theorem revalidate_unchanged:
  assumes "validate_transcript tr = Inr tr'"
    and "positive_timing tr'"
  shows "validate_transcript tr' = Inr tr'"
proof -
  have pt: "\<forall>g \<in> set (t_segments tr'). 0 \<le> s_start g \<and> (\<forall>w \<in> set (s_words g). w_start w < w_end w)"
    using assms(2) by (simp add: positive_timing_def list_all_iff)
  have segs: "t_segments tr' = map validate_segment (filter (\<lambda>g. s_words g \<noteq> []) (t_segments tr))"
    using validate_transcript_Inr[OF assms(1)] by simp
  have ne: "t_segments tr' \<noteq> []"
    using assms(1) by (auto simp: validate_transcript_def Let_def split: if_splits)
  have "\<forall>g \<in> set (t_segments tr'). s_words g \<noteq> [] \<and> validate_segment g = g"
  proof
    fix g assume g: "g \<in> set (t_segments tr')"
    then obtain seg where seg: "s_words seg \<noteq> []" "g = validate_segment seg"
      unfolding segs by auto
    have w: "s_words g \<noteq> []" using seg validate_segment_words by simp
    have p: "s_start g < s_end g" using seg validate_segment_proper by simp
    have c: "\<forall>w \<in> set (s_words g). w_start w < w_end w \<and> s_start g \<le> w_start w \<and> w_end w \<le> s_end g"
      using pt g seg(2) validate_segment_covers by blast
    from pt g have "0 \<le> s_start g" by blast
    from validate_segment_id[OF this p c] w
    show "s_words g \<noteq> [] \<and> validate_segment g = g" by simp
  qed
  then have "valid_segments (t_segments tr') = t_segments tr'" by (rule valid_segments_id)
  with ne show ?thesis by (simp add: validate_transcript_def Let_def)
qed

text \<open>C6 on the transcript of \<^verbatim>\<open>test_render.py\<close>, which validation leaves as it is.\<close>

theorem revalidate_unchanged_witness:
  "validate_transcript hello_transcript = Inr hello_transcript
   \<and> positive_timing hello_transcript"
proof -
  have h: "positive_timing hello_transcript"
    by (simp add: positive_timing_def hello_transcript_def hello_segment_def hello_word_def
        world_word_def)
  from revalidate_unchanged[OF hello_validate h] h show ?thesis by simp
qed

text \<open>
  The claim C6 as stated fails. A segment \<open>[0, 1]\<close> with one word \<open>[5, 5]\<close> validates
  to the same segment with the word \<open>[5, 1]\<close>; validating again gives the word
  \<open>[5, 5.01]\<close> and the segment \<open>[0, 5.01]\<close>.
\<close>

theorem revalidate_counterexample:
  "validate_transcript late_transcript = Inr late_transcript_once
   \<and> validate_transcript late_transcript_once = Inr late_transcript_twice
   \<and> late_transcript_twice \<noteq> late_transcript_once"
proof -
  have a: "validate_transcript late_transcript = Inr late_transcript_once"
    by (simp add: validate_transcript_def late_transcript_def late_transcript_once_def
        late_segment_def late_word_def validate_segment_def clamp_start_def fix_range_def
        fix_word_def Let_def)
  have b: "validate_transcript late_transcript_once = Inr late_transcript_twice"
    by (simp add: validate_transcript_def late_transcript_def late_transcript_once_def
        late_transcript_twice_def late_segment_def late_word_def validate_segment_def
        clamp_start_def fix_range_def fix_word_def Let_def)
  have c: "late_transcript_twice \<noteq> late_transcript_once"
    by (simp add: late_transcript_def late_transcript_once_def late_transcript_twice_def
        late_segment_def late_word_def)
  from a b c show ?thesis by blast
qed


section \<open>Timeline compilation\<close>

lemma validate_transcript_duration:
  "validate_transcript tr = Inr tr' \<Longrightarrow> t_duration tr' = t_duration tr"
  by (auto simp: validate_transcript_def Let_def split: if_splits)

lemma validate_styles_fps: "validate_styles styles = Inr ok \<Longrightarrow> 0 < fps styles"
  by (auto simp: validate_styles_def split: if_splits)



lemma override_engine_fps: "fps styles \<noteq> 0 \<Longrightarrow> eng_fps (override_engine eng styles) = fps styles"
  by (simp add: override_engine_def Let_def)



lemma default_element_fps: "default_element (eng\<lparr>eng_fps := n\<rparr>) w st = default_element eng w st"
  by (simp add: default_element_def)


lemma upt3: "[0..<3] = [0, 1, 2]"
  by (simp add: upt_rec)



subsection \<open>Keyframe errors during compilation\<close>

lemma new_keyframe_Inl: "new_keyframe t p = Inl e \<Longrightarrow> \<exists>m. e = ValueError m"
  by (auto simp: new_keyframe_def split: if_splits)

lemma new_keyframe_Inr: "new_keyframe t p = Inr kf \<Longrightarrow> kf_time kf = t"
  by (auto simp: new_keyframe_def split: if_splits)

lemma collect_keyframes_Inl:
  "collect_keyframes pyfloat kvs = Inl e \<Longrightarrow> \<exists>m. e = ValueError m"
proof (induction kvs)
  case Nil then show ?case by simp
next
  case (Cons kv kvs)
  obtain k p where kv: "kv = (k, p)" by (cases kv)
  from Cons.prems Cons.IH show ?case
    unfolding kv
    by (auto split: option.splits sum.splits dest: new_keyframe_Inl)
qed

lemma collect_keyframes_times:
  "collect_keyframes pyfloat kvs = Inr kfs \<Longrightarrow>
     map (\<lambda>kf. Some (kf_time kf * 100)) kfs = map (\<lambda>kv. pyfloat (rstrip_percent (fst kv))) kvs"
proof (induction kvs arbitrary: kfs)
  case Nil then show ?case by simp
next
  case (Cons kv kvs)
  obtain k p where kv: "kv = (k, p)" by (cases kv)
  from Cons.prems Cons.IH show ?case
    unfolding kv
    by (auto split: option.splits sum.splits dest!: new_keyframe_Inr)
qed

lemma get_keyframes_Inl:
  "get_keyframes pyfloat anim = Inl e \<Longrightarrow> \<exists>m. e = ValueError m"
  by (auto simp: get_keyframes_def split: sum.splits dest: collect_keyframes_Inl)

lemma get_keyframes_times:
  assumes "get_keyframes pyfloat anim = Inr kfs"
  shows "(\<lambda>kf. Some (kf_time kf * 100)) ` set kfs = set (keyframe_percents pyfloat anim)"
proof -
  from assms obtain r where r: "collect_keyframes pyfloat (a_keyframes anim) = Inr r"
    and k: "kfs = sort_key kf_time r"
    by (auto simp: get_keyframes_def split: sum.splits)
  have "set (map (\<lambda>kf. Some (kf_time kf * 100)) r) = set (keyframe_percents pyfloat anim)"
    unfolding collect_keyframes_times[OF r] keyframe_percents_def ..
  then show ?thesis unfolding k by simp
qed

lemma new_interpolator_Inl:
  "new_interpolator kfs name = Inl e \<Longrightarrow> \<exists>m. e = ValueError m"
  by (auto simp: new_interpolator_def Let_def split: if_splits)

lemma new_interpolator_ends:
  assumes "new_interpolator kfs name = Inr ip"
  shows "\<exists>kf \<in> set kfs. kf_time kf = 0" and "\<exists>kf \<in> set kfs. kf_time kf = 1"
proof -
  note v = new_interpolator_Inr[OF assms]
  have "hd (ip_keyframes ip) \<in> set (ip_keyframes ip)" "last (ip_keyframes ip) \<in> set (ip_keyframes ip)"
    using v(3) by simp_all
  then have "hd (ip_keyframes ip) \<in> set kfs" "last (ip_keyframes ip) \<in> set kfs"
    unfolding v(1) by simp_all
  with v(4,5) show "\<exists>kf \<in> set kfs. kf_time kf = 0" "\<exists>kf \<in> set kfs. kf_time kf = 1"
    by blast+
qed

lemma bad_keyframes_reject:
  assumes "Some 0 \<notin> set (keyframe_percents pyfloat anim) \<or> Some 100 \<notin> set (keyframe_percents pyfloat anim)"
    and "get_keyframes pyfloat anim = Inr kfs"
  shows "\<exists>m. new_interpolator kfs name = Inl (ValueError m)"
proof (cases "new_interpolator kfs name")
  case (Inl e)
  with new_interpolator_Inl[OF Inl] show ?thesis by blast
next
  case (Inr ip)
  from new_interpolator_ends[OF Inr] obtain k0 k1 where
    k: "k0 \<in> set kfs" "kf_time k0 = 0" "k1 \<in> set kfs" "kf_time k1 = 1" by blast
  then have "Some 0 \<in> (\<lambda>kf. Some (kf_time kf * 100)) ` set kfs"
       "Some 100 \<in> (\<lambda>kf. Some (kf_time kf * 100)) ` set kfs"
    by force+
  with assms(1) show ?thesis unfolding get_keyframes_times[OF assms(2)] by blast
qed

lemma find_bracket_Inr: "kfs \<noteq> [] \<Longrightarrow> \<exists>p. find_bracket kfs e = Inr p"
  by (induction kfs e rule: find_bracket.induct) (auto simp: Let_def)

lemma interpolate_Inr:
  "new_interpolator kfs name = Inr ip \<Longrightarrow> \<exists>p. interpolate ip t = Inr p"
  using new_interpolator_Inr(3) find_bracket_Inr by (simp add: interpolate_def Let_def)

lemma apply_animations_Inl:
  "apply_animations pyfloat anims ct ws el = Inl e \<Longrightarrow> \<exists>m. e = ValueError m"
proof (induction anims arbitrary: el)
  case Nil then show ?case by simp
next
  case (Cons a anims)
  show ?case
  proof (cases "a_selector a = ''word'' \<and> anim_progress a ct ws < 1")
    case False
    with Cons show ?thesis by (auto split: if_splits)
  next
    case True
    show ?thesis
    proof (cases "get_keyframes pyfloat a")
      case (Inl e')
      with True Cons.prems get_keyframes_Inl[OF Inl] show ?thesis by simp
    next
      case (Inr kfs)
      show ?thesis
      proof (cases "new_interpolator kfs (a_easing a)")
        case (Inl e')
        with True Cons.prems Inr new_interpolator_Inl[OF Inl] show ?thesis by simp
      next
        case ip: (Inr ip)
        from interpolate_Inr[OF ip] obtain p where p: "interpolate ip (anim_progress a ct ws) = Inr p"
          by blast
        with True Cons.prems Inr ip have "apply_animations pyfloat anims ct ws (el ++ p) = Inl e"
          by simp
        then show ?thesis by (rule Cons.IH)
      qed
    qed
  qed
qed

lemma apply_animations_bad:
  assumes "anim \<in> set anims" "a_selector anim = ''word''" "anim_progress anim ct ws < 1"
    and "Some 0 \<notin> set (keyframe_percents pyfloat anim) \<or> Some 100 \<notin> set (keyframe_percents pyfloat anim)"
  shows "\<exists>m. apply_animations pyfloat anims ct ws el = Inl (ValueError m)"
  using assms(1)
proof (induction anims arbitrary: el)
  case Nil then show ?case by simp
next
  case (Cons a anims)
  show ?case
  proof (cases "apply_animations pyfloat (a # anims) ct ws el")
    case (Inl e)
    with apply_animations_Inl[OF Inl] show ?thesis by blast
  next
    case (Inr el')
    have na: "a \<noteq> anim"
    proof
      assume "a = anim"
      with Inr assms(2,3) obtain kfs ip where "get_keyframes pyfloat anim = Inr kfs"
        "new_interpolator kfs (a_easing anim) = Inr ip"
        by (auto split: sum.splits)
      with bad_keyframes_reject[OF assms(4) this(1), of "a_easing anim"] show False by simp
    qed
    with Cons.prems have m: "anim \<in> set anims" by simp
    from Inr obtain el2 where "apply_animations pyfloat anims ct ws el2 = Inr el'"
      by (auto split: if_splits sum.splits)
    with Cons.IH[OF m, of el2] show ?thesis by simp
  qed
qed

lemma create_element_Inl:
  "create_element pyfloat eng w seg styles ct ss ws = Inl e \<Longrightarrow> \<exists>m. e = ValueError m"
  by (auto simp: create_element_def split: sum.splits dest: apply_animations_Inl)

lemma create_element_bad:
  assumes "anim \<in> set (animations styles)" "a_selector anim = ''word''"
    "anim_progress anim ct ws < 1"
    "Some 0 \<notin> set (keyframe_percents pyfloat anim) \<or> Some 100 \<notin> set (keyframe_percents pyfloat anim)"
  shows "\<exists>m. create_element pyfloat eng w seg styles ct ss ws = Inl (ValueError m)"
proof -
  from apply_animations_bad[OF assms, of "default_element eng w styles"]
  obtain m where "apply_animations pyfloat (animations styles) ct ws (default_element eng w styles)
      = Inl (ValueError m)" by blast
  then show ?thesis by (simp add: create_element_def)
qed

lemma word_elements_Inl:
  "word_elements pyfloat eng seg styles t ws = Inl e \<Longrightarrow> \<exists>m. e = ValueError m"
proof (induction ws)
  case Nil then show ?case by simp
next
  case (Cons w ws)
  then show ?case
    by (auto split: if_splits sum.splits dest: create_element_Inl)
qed

lemma word_elements_bad:
  assumes "w \<in> set ws" "w_start w \<le> t" "t \<le> w_end w"
    and "\<exists>m. create_element pyfloat eng w seg styles t (s_start seg) (w_start w) = Inl (ValueError m)"
  shows "\<exists>m. word_elements pyfloat eng seg styles t ws = Inl (ValueError m)"
  using assms(1)
proof (induction ws)
  case Nil then show ?case by simp
next
  case (Cons a ws)
  show ?case
  proof (cases "word_elements pyfloat eng seg styles t (a # ws)")
    case (Inl e)
    with word_elements_Inl[OF Inl] show ?thesis by blast
  next
    case (Inr els)
    have "a \<noteq> w"
    proof
      assume "a = w"
      with Inr assms(2,3,4) show False by (auto split: sum.splits)
    qed
    with Cons.prems have m: "w \<in> set ws" by simp
    from Inr obtain els2 where "word_elements pyfloat eng seg styles t ws = Inr els2"
      by (auto split: if_splits sum.splits)
    with Cons.IH[OF m] show ?thesis by auto
  qed
qed

lemma segment_elements_Inl:
  "segment_elements pyfloat eng styles t segs = Inl e \<Longrightarrow> \<exists>m. e = ValueError m"
proof (induction segs)
  case Nil then show ?case by simp
next
  case (Cons g segs)
  then show ?case
    by (auto split: if_splits sum.splits dest: word_elements_Inl)
qed

lemma segment_elements_bad:
  assumes "g \<in> set segs" "s_start g \<le> t" "t \<le> s_end g"
    and "\<exists>m. word_elements pyfloat eng g styles t (s_words g) = Inl (ValueError m)"
  shows "\<exists>m. segment_elements pyfloat eng styles t segs = Inl (ValueError m)"
  using assms(1)
proof (induction segs)
  case Nil then show ?case by simp
next
  case (Cons a segs)
  show ?case
  proof (cases "segment_elements pyfloat eng styles t (a # segs)")
    case (Inl e)
    with segment_elements_Inl[OF Inl] show ?thesis by blast
  next
    case (Inr els)
    have "a \<noteq> g"
    proof
      assume "a = g"
      with Inr assms(2,3,4) show False by (auto split: sum.splits)
    qed
    with Cons.prems have m: "g \<in> set segs" by simp
    from Inr obtain els2 where "segment_elements pyfloat eng styles t segs = Inr els2"
      by (auto split: if_splits sum.splits)
    with Cons.IH[OF m] show ?thesis by auto
  qed
qed

lemma build_frames_Inl:
  "build_frames pyfloat eng tr styles fd idxs = Inl e \<Longrightarrow> \<exists>m. e = ValueError m"
proof (induction idxs)
  case Nil then show ?case by simp
next
  case (Cons i idxs)
  then show ?case
    by (auto simp: Let_def get_elements_at_time_def split: sum.splits dest: segment_elements_Inl)
qed

lemma build_frames_bad:
  assumes "i \<in> set idxs"
    and "\<exists>m. get_elements_at_time pyfloat eng tr styles (real i * fd) = Inl (ValueError m)"
  shows "\<exists>m. build_frames pyfloat eng tr styles fd idxs = Inl (ValueError m)"
  using assms(1)
proof (induction idxs)
  case Nil then show ?case by simp
next
  case (Cons a idxs)
  show ?case
  proof (cases "build_frames pyfloat eng tr styles fd (a # idxs)")
    case (Inl e)
    with build_frames_Inl[OF Inl] show ?thesis by blast
  next
    case (Inr fs)
    have "a \<noteq> i"
    proof
      assume "a = i"
      with Inr assms(2) show False by (auto simp: Let_def split: sum.splits)
    qed
    with Cons.prems have m: "i \<in> set idxs" by simp
    from Inr obtain fs2 where "build_frames pyfloat eng tr styles fd idxs = Inr fs2"
      by (auto simp: Let_def split: sum.splits)
    with Cons.IH[OF m] show ?thesis by auto
  qed
qed

lemma validate_animations_iff:
  "validate_animations anims = Inr True \<longleftrightarrow>
     list_all (\<lambda>a. 0 < a_duration a \<and> a_keyframes a \<noteq> []) anims"
  by (induction anims) auto

lemma validate_styles_accepts:
  assumes "0 < fps styles" "0 < font_size styles" "resolution styles = [w, h]" "0 < w" "0 < h"
    and "list_all (\<lambda>a. 0 < a_duration a \<and> a_keyframes a \<noteq> []) (animations styles)"
  shows "validate_styles styles = Inr True"
  using assms by (simp add: validate_styles_def validate_animations_iff)

text \<open>
  Claim C9. \<^verbatim>\<open>validate_styles\<close> accepts every style configuration with positive fps,
  font size and resolution whose animations have a positive duration and a non-empty
  keyframe map, whatever the keys are. If such a configuration has a word animation whose
  keys do not denote both 0 and 100 percent, and at some frame a word is active with that
  animation's progress below 1, then \<^verbatim>\<open>compile\<close> raises a \<^verbatim>\<open>ValueError\<close>: passing style
  validation does not guarantee that compilation succeeds.
\<close>

theorem valid_styles_may_fail_to_compile:
  assumes "validate_transcript tr = Inr tr'"
    and "0 < fps styles" "0 < font_size styles" "resolution styles = [w, h]" "0 < w" "0 < h"
    and "list_all (\<lambda>a. 0 < a_duration a \<and> a_keyframes a \<noteq> []) (animations styles)"
    and "anim \<in> set (animations styles)" "a_selector anim = ''word''"
    and "Some 0 \<notin> set (keyframe_percents pyfloat anim)
         \<or> Some 100 \<notin> set (keyframe_percents pyfloat anim)"
    and "i < nat (py_int (t_duration tr * real_of_int (fps styles)) + 1)"
    and "g \<in> set (t_segments tr')"
    and "s_start g \<le> real i / real_of_int (fps styles)"
    and "real i / real_of_int (fps styles) \<le> s_end g"
    and "wd \<in> set (s_words g)"
    and "w_start wd \<le> real i / real_of_int (fps styles)"
    and "real i / real_of_int (fps styles) \<le> w_end wd"
    and "anim_progress anim (real i / real_of_int (fps styles)) (w_start wd) < 1"
  shows "validate_styles styles = Inr True
       \<and> (\<exists>msg. compile pyfloat eng tr styles = Inl (ValueError msg))"
proof -
  let ?F = "real_of_int (fps styles)"
  let ?t = "real i / ?F"
  let ?eng = "override_engine eng styles"
  have vs: "validate_styles styles = Inr True"
    by (rule validate_styles_accepts[OF assms(2-7)])
  have F: "eng_fps ?eng = fps styles" using assms(2) by (simp add: override_engine_fps)
  have D: "t_duration tr' = t_duration tr" by (rule validate_transcript_duration[OF assms(1)])
  have t: "real i * (1 / ?F) = ?t" by simp
  from create_element_bad[OF assms(8,9,18,10)]
  have "\<exists>m. create_element pyfloat ?eng wd g styles ?t (s_start g) (w_start wd) = Inl (ValueError m)" .
  from word_elements_bad[OF assms(15,16,17) this]
  have "\<exists>m. word_elements pyfloat ?eng g styles ?t (s_words g) = Inl (ValueError m)" .
  from segment_elements_bad[OF assms(12,13,14) this]
  have "\<exists>m. get_elements_at_time pyfloat ?eng tr' styles (real i * (1 / ?F)) = Inl (ValueError m)"
    unfolding get_elements_at_time_def t .
  moreover have "i \<in> set [0 ..< nat (py_int (t_duration tr * ?F) + 1)]"
    using assms(11) by simp
  ultimately obtain m where
    "build_frames pyfloat ?eng tr' styles (1 / ?F) [0 ..< nat (py_int (t_duration tr * ?F) + 1)]
       = Inl (ValueError m)"
    using build_frames_bad by blast
  then have "compile pyfloat eng tr styles = Inl (ValueError m)"
    by (simp add: compile_def assms(1) vs Let_def F D)
  with vs show ?thesis by blast
qed

lemma pct_50: "decimal_float (rstrip_percent ''50%'') = Some 50"
  by (simp add: rstrip_percent_def decimal_float_def digit_val_def)



lemma half_only_keyframes:
  "get_keyframes decimal_float half_only =
     Inr [\<lparr>kf_time = 1 / 2, kf_properties = [''opacity'' \<mapsto> PNum (1 / 2)]\<rparr>]"
  by (simp add: get_keyframes_def half_only_def pct_50 new_keyframe_def)

lemma half_only_compile:
  "compile decimal_float engine0 hello_transcript half_only_styles =
     Inl (ValueError ''First keyframe must be at time 0.0'')"
proof -
  have vs: "validate_styles half_only_styles = Inr True"
    by (simp add: validate_styles_def half_only_styles_def plain_styles_def half_only_def)
  have p: "anim_progress half_only 0 0 = 0" by (simp add: anim_progress_def half_only_def)
  have ni: "new_interpolator [\<lparr>kf_time = 1 / 2, kf_properties = [''opacity'' \<mapsto> PNum (1 / 2)]\<rparr>] ''linear''
     = Inl (ValueError ''First keyframe must be at time 0.0'')"
    by (simp add: new_interpolator_def Let_def)
  have e: "a_easing half_only = ''linear''" "a_selector half_only = ''word''" by (simp_all add: half_only_def)
  have ce: "\<And>eng seg. create_element decimal_float eng hello_word seg half_only_styles 0 0 0
       = Inl (ValueError ''First keyframe must be at time 0.0'')"
    by (simp add: create_element_def half_only_styles_def p half_only_keyframes ni e)
  have ge: "\<And>eng. get_elements_at_time decimal_float eng hello_transcript half_only_styles 0
       = Inl (ValueError ''First keyframe must be at time 0.0'')"
    using ce by (simp add: get_elements_at_time_def hello_transcript_def hello_segment_def hello_word_def)
  have n: "nat (py_int (t_duration hello_transcript * 2) + 1) = 3"
    by (simp add: hello_transcript_def py_int_def)
  have f: "eng_fps (override_engine engine0 half_only_styles) = 2"
    by (simp add: override_engine_def half_only_styles_def plain_styles_def)
  show ?thesis
    unfolding compile_def hello_validate vs
    by (simp add: Let_def f n upt3 ge)
qed

text \<open>
  C9 on the transcript of \<^verbatim>\<open>test_render.py\<close> and an animation whose only keyframe is at
  50%: style validation passes, and compilation raises at frame 0, when the interpolator
  is constructed.
\<close>

theorem valid_styles_may_fail_to_compile_witness:
  "validate_styles half_only_styles = Inr True
   \<and> Some 0 \<notin> set (keyframe_percents decimal_float half_only)
   \<and> anim_progress half_only (real 0 / real_of_int (fps half_only_styles)) (w_start hello_word) < 1
   \<and> compile decimal_float engine0 hello_transcript half_only_styles =
       Inl (ValueError ''First keyframe must be at time 0.0'')"
proof -
  have s: "fps half_only_styles = 2" "font_size half_only_styles = 72"
    "resolution half_only_styles = [1920, 1080]" "animations half_only_styles = [half_only]"
    by (simp_all add: half_only_styles_def plain_styles_def)
  have h2: "0 < fps half_only_styles" "0 < font_size half_only_styles" by (simp_all add: s)
  have h3: "resolution half_only_styles = [1920, 1080]" by (simp add: s)
  have h4: "list_all (\<lambda>a. 0 < a_duration a \<and> a_keyframes a \<noteq> []) (animations half_only_styles)"
    by (simp add: s half_only_def)
  have h5: "half_only \<in> set (animations half_only_styles)" by (simp add: s)
  have h6: "a_selector half_only = ''word''" by (simp add: half_only_def)
  have kp: "Some 0 \<notin> set (keyframe_percents decimal_float half_only)"
    by (simp add: keyframe_percents_def half_only_def pct_50)
  then have h7: "Some 0 \<notin> set (keyframe_percents decimal_float half_only)
         \<or> Some 100 \<notin> set (keyframe_percents decimal_float half_only)" by simp
  have h8: "0 < nat (py_int (t_duration hello_transcript * real_of_int (fps half_only_styles)) + 1)"
    by (simp add: s hello_transcript_def py_int_def)
  have h9: "hello_segment \<in> set (t_segments hello_transcript)" by (simp add: hello_transcript_def)
  have h10: "s_start hello_segment \<le> real 0 / real_of_int (fps half_only_styles)"
     "real 0 / real_of_int (fps half_only_styles) \<le> s_end hello_segment"
    by (simp_all add: hello_segment_def)
  have h11: "hello_word \<in> set (s_words hello_segment)" by (simp add: hello_segment_def)
  have h12: "w_start hello_word \<le> real 0 / real_of_int (fps half_only_styles)"
     "real 0 / real_of_int (fps half_only_styles) \<le> w_end hello_word"
    by (simp_all add: hello_word_def)
  have h13: "anim_progress half_only (real 0 / real_of_int (fps half_only_styles)) (w_start hello_word) < 1"
    by (simp add: anim_progress_def half_only_def hello_word_def)
  from valid_styles_may_fail_to_compile[OF hello_validate h2 h3 _ _ h4 h5 h6 h7 h8 h9 h10 h11 h12 h13,
      of engine0]
  have "validate_styles half_only_styles = Inr True" by simp
  with kp h13 half_only_compile show ?thesis by simp
qed



section \<open>Render loop\<close>
















lemma write_grey: "write_frame working (1, 1) k fb grey_pixel = Inr ()"
  by (simp add: write_frame_def working_def grey_pixel_def)











end
